theory Spec2Isabelle
  imports
    Complex_Main
    "HOL-Library.Char_ord"
    "HOL-Library.List_Lexorder"
    "HOL-Library.Multiset"
begin

section \<open>Data model\<close>

text \<open>
  Field values are untyped at storage level; the routes only compare them, so the model
  keeps the JSON scalars that occur: null, booleans, integers and strings.
\<close>

datatype val = VNone | VBool bool | VInt int | VStr string

text \<open>An object field is the dictionary \<open>{'name': ..., 'value': ...}\<close>.\<close>

type_synonym field = "string \<times> val"

record cmdb_object =
  obj_public_id :: int
  obj_type_id :: int
  obj_version :: string
  obj_active :: bool
  obj_fields :: "field list"

text \<open>
  A type field is a dictionary with the keys \<open>name\<close>, \<open>type\<close> (\<open>'ref'\<close> for a reference),
  optionally \<open>ref_types\<close> and optionally \<open>value\<close> (the default).
\<close>

record type_field =
  tf_name :: string
  tf_type :: string
  tf_ref_types :: "int list"
  tf_value :: "val option"

record cmdb_type =
  type_public_id :: int
  type_fields :: "type_field list"

record cmdb_location =
  loc_public_id :: int
  loc_object_id :: int
  loc_parent :: int

record object_link =
  link_public_id :: int
  link_primary :: int
  link_secondary :: int

text \<open>The collections of the document store the routes work on.\<close>

record store =
  objects :: "cmdb_object list"
  types :: "cmdb_type list"
  locations :: "cmdb_location list"
  links :: "object_link list"

section \<open>User manager: \<open>UserManager.delete\<close>\<close>

record user_model =
  user_public_id :: int
  user_name :: string

datatype manager_error = ManagerGetError | ManagerDeleteError

text \<open>The calls \<open>delete\<close> makes on the user collection, in the order it makes them.\<close>

datatype user_io = UserGet int | UserDelete int

text \<open>\<open>UserManager.get\<close>: the first user with the id, \<open>ManagerGetError\<close> when there is none.\<close>

definition user_get :: "user_model list \<Rightarrow> int \<Rightarrow> manager_error + user_model" where
  "user_get users public_id =
     (case List.find (\<lambda>u. user_public_id u = public_id) users of
        None \<Rightarrow> Inl ManagerGetError
      | Some u \<Rightarrow> Inr u)"

text \<open>
  Modelled from the spec: the base manager's \<open>_delete\<close> is not part of the sources; it is
  the store adapter's \<open>Delete(collection, id)\<close>, which removes the document with the id and
  reports how many documents it removed.
\<close>

fun store_delete_user :: "user_model list \<Rightarrow> int \<Rightarrow> nat \<times> user_model list" where
  "store_delete_user [] public_id = (0, [])"
| "store_delete_user (u # us) public_id =
     (if user_public_id u = public_id then (1, us)
      else (case store_delete_user us public_id of (n, us') \<Rightarrow> (n, u # us')))"

text \<open>
  \<open>UserManager.delete\<close>: the result or the raised error, the user collection afterwards
  and the store calls made.
\<close>

definition UserManager_delete ::
  "user_model list \<Rightarrow> int \<Rightarrow> (manager_error + user_model) \<times> user_model list \<times> user_io list" where
  "UserManager_delete users public_id =
     (if public_id \<in> set [1] then (Inl ManagerDeleteError, users, [])
      else
        (case user_get users public_id of
           Inl e \<Rightarrow> (Inl e, users, [UserGet public_id])
         | Inr user \<Rightarrow>
             (case store_delete_user users public_id of
                (deleted_count, users') \<Rightarrow>
                  (if deleted_count = 0
                   then (Inl ManagerDeleteError, users', [UserGet public_id, UserDelete public_id])
                   else (Inr user, users', [UserGet public_id, UserDelete public_id])))))"

section \<open>Object update: \<open>update_object\<close>\<close>

datatype versioning = VERSIONING_MAJOR | VERSIONING_MINOR | VERSIONING_PATCH

text \<open>
  The version branch of \<open>update_object\<close>: \<open>c\<close> is \<open>len(changes['new'])\<close> and \<open>n\<close> is
  \<open>len(update_object_instance.fields)\<close>. Python's \<open>/\<close> on two integers is true division,
  so the third test compares \<open>c\<close> with the exact half of \<open>n\<close>; the model divides in the
  rationals.
\<close>

definition calc_version :: "nat \<Rightarrow> nat \<Rightarrow> versioning" where
  "calc_version c n =
     (if c = 1 then VERSIONING_PATCH
      else if c = n then VERSIONING_MAJOR
      else if (of_nat c :: rat) > of_nat n / 2 then VERSIONING_MINOR
      else VERSIONING_PATCH)"

text \<open>
  A field of the payload is a dictionary that may lack the key \<open>name\<close> or the key
  \<open>value\<close>: \<open>None\<close> stands for the absent key.
\<close>

type_synonym payload_field = "string option \<times> val option"

text \<open>
  The payload of an update request: the keys the route reads. \<open>data_version\<close> and
  \<open>data_comment\<close> are \<open>None\<close> when the key is absent; \<open>data_active\<close> is the request's
  \<open>active\<close> when it is a boolean.
\<close>

record update_data =
  data_type_id :: int
  data_version :: "string option"
  data_active :: "bool option"
  data_fields :: "payload_field list"
  data_comment :: "string option"

text \<open>
  The inner loop \<open>for old in old_fields: if item['name'] == old['name']: old['value'] =
  item['value']\<close>. \<open>None\<close> is the \<open>KeyError\<close> of \<open>item['name']\<close> or of \<open>item['value']\<close>.
\<close>

fun set_value :: "payload_field \<Rightarrow> field list \<Rightarrow> field list option" where
  "set_value item [] = Some []"
| "set_value item (old # olds) =
     (case fst item of
        None \<Rightarrow> None
      | Some name \<Rightarrow>
          (if name = fst old
           then (case snd item of
                   None \<Rightarrow> None
                 | Some v \<Rightarrow> map_option (\<lambda>rest. (fst old, v) # rest) (set_value item olds))
           else map_option (\<lambda>rest. old # rest) (set_value item olds)))"

text \<open>
  The outer loop \<open>for item in new_fields\<close>, on the list \<open>old_fields\<close> it mutates; \<open>None\<close>
  when a \<open>KeyError\<close> leaves the loop.
\<close>

fun merge_fields :: "payload_field list \<Rightarrow> field list \<Rightarrow> field list option" where
  "merge_fields [] old_fields = Some old_fields"
| "merge_fields (item # new_fields) old_fields =
     (case set_value item old_fields of
        None \<Rightarrow> None
      | Some olds \<Rightarrow> merge_fields new_fields olds)"

text \<open>\<open>manager.get\<close> and \<open>type_manager.get\<close>: the first document with the id.\<close>

definition get_object :: "store \<Rightarrow> int \<Rightarrow> cmdb_object option" where
  "get_object st public_id = List.find (\<lambda>ob. obj_public_id ob = public_id) (objects st)"

definition get_type :: "store \<Rightarrow> int \<Rightarrow> cmdb_type option" where
  "get_type st public_id = List.find (\<lambda>t. type_public_id t = public_id) (types st)"

text \<open>An entry of the \<open>failed\<close> list: the HTTP status and the object id.\<close>

type_synonym failed_message = "nat \<times> int"

text \<open>
  The dictionary \<open>new_data\<close> that the route hands to \<open>manager.update\<close>: its field list is
  a list of payload dictionaries.
\<close>

record update_document =
  doc_public_id :: int
  doc_type_id :: int
  doc_version :: string
  doc_active :: bool
  doc_fields :: "payload_field list"

text \<open>
  The body of the loop of \<open>update_object\<close> for one \<open>obj_id\<close>: the entry of \<open>failed\<close>, or
  the \<open>new_data\<close> handed to \<open>manager.update\<close>, which is not part of the sources. Inside the
  \<open>try\<close> block \<open>new_data['fields'] = old_fields\<close> follows the merge loop: when the loop
  raises \<open>KeyError\<close>, the handler only resets the comment and \<open>new_data['fields']\<close> stays
  the copy of the payload's list. Three collaborators are not part of the sources and are
  parameters: \<open>render\<close> gives the fields of the render result (\<open>None\<close> for \<open>RenderError\<close>),
  \<open>changes_new\<close> is the \<open>'new'\<close> entry of \<open>current_object_instance /
  update_object_instance\<close>, and \<open>update_version\<close> bumps a version string at a tier. The
  access-control check is outside this model.
\<close>

definition update_one ::
  "(cmdb_type \<Rightarrow> cmdb_object \<Rightarrow> field list option) \<Rightarrow>
   (cmdb_object \<Rightarrow> update_document \<Rightarrow> payload_field list) \<Rightarrow>
   (versioning \<Rightarrow> string \<Rightarrow> string) \<Rightarrow>
   store \<Rightarrow> update_data \<Rightarrow> int \<Rightarrow> failed_message + update_document" where
  "update_one render changes_new update_version st data obj_id =
     (case get_object st obj_id of
        None \<Rightarrow> Inl (400, obj_id)
      | Some current_object_instance \<Rightarrow>
          (case get_type st (obj_type_id current_object_instance) of
             None \<Rightarrow> Inl (404, obj_id)
           | Some current_type_instance \<Rightarrow>
               (case render current_type_instance current_object_instance of
                  None \<Rightarrow> Inl (500, obj_id)
                | Some old_fields \<Rightarrow>
                    (let update_object_instance =
                           \<lparr>doc_public_id = obj_id,
                            doc_type_id = data_type_id data,
                            doc_version = (case data_version data of
                                             None \<Rightarrow> obj_version current_object_instance
                                           | Some v \<Rightarrow> v),
                            doc_active = (case data_active data of
                                            None \<Rightarrow> obj_active current_object_instance
                                          | Some a \<Rightarrow> a),
                            doc_fields = (case merge_fields (data_fields data) old_fields of
                                            None \<Rightarrow> data_fields data
                                          | Some merged \<Rightarrow>
                                              map (\<lambda>f. (Some (fst f), Some (snd f))) merged)\<rparr>;
                         changes = changes_new current_object_instance update_object_instance
                     in Inr (update_object_instance
                               \<lparr>doc_version :=
                                  update_version
                                    (calc_version (length changes)
                                       (length (doc_fields update_object_instance)))
                                    (doc_version update_object_instance)\<rparr>)))))"

text \<open>
  Modelled from the spec: \<open>CmdbRender\<close> is not part of the sources. The render merges each
  type field with the object field of the same name, a type field the object lacks gets the
  type's default, object fields the type lacks are kept, and an object with a duplicate
  field name is a \<open>RenderError\<close>. The routes take the render as a parameter; this function
  is the instance used where a run is evaluated.
\<close>

definition render_fields :: "cmdb_type \<Rightarrow> cmdb_object \<Rightarrow> field list option" where
  "render_fields t ob =
     (if distinct (map fst (obj_fields ob))
      then Some
        (map (\<lambda>tf. (tf_name tf,
                (case map_of (obj_fields ob) (tf_name tf) of
                   Some v \<Rightarrow> v
                 | None \<Rightarrow> (case tf_value tf of Some d \<Rightarrow> d | None \<Rightarrow> VNone))))
           (type_fields t)
         @ filter (\<lambda>f. fst f \<notin> set (map tf_name (type_fields t))) (obj_fields ob))
      else None)"

section \<open>Object insert: \<open>insert_object\<close>\<close>

text \<open>
  The request body of an insert: \<open>ins_public_id\<close>, \<open>ins_active\<close> and \<open>ins_version\<close> are
  \<open>None\<close> when the key is absent.
\<close>

record insert_data =
  ins_public_id :: "int option"
  ins_type_id :: int
  ins_active :: "bool option"
  ins_version :: "string option"
  ins_fields :: "field list"

text \<open>
  Modelled from the spec: \<open>get_next_public_id\<close> and \<open>dbm.insert\<close> are not part of the
  sources. \<open>NextId\<close> gives an identifier no stored object has; \<open>Insert\<close> appends the record
  and fails with \<open>DuplicateId\<close> when the identifier is taken.
\<close>

definition get_new_id :: "store \<Rightarrow> int" where
  "get_new_id st = fold max (map obj_public_id (objects st)) 0 + 1"

definition store_insert_object :: "store \<Rightarrow> cmdb_object \<Rightarrow> store option" where
  "store_insert_object st new_object =
     (case get_object st (obj_public_id new_object) of
        Some _ \<Rightarrow> None
      | None \<Rightarrow> Some (st\<lparr>objects := objects st @ [new_object]\<rparr>))"

text \<open>
  The routes call methods of \<open>CmdbObjectManager\<close> with the requesting user and a
  permission, which the signatures in the sources, \<open>insert_object(self, data)\<close> and
  \<open>delete_object(self, public_id)\<close>, do not declare. Such a call raises \<open>TypeError\<close> before
  the body of the method runs. The model of a method takes the number of arguments the
  signature does not declare as its first parameter.
\<close>

datatype py_exception = TypeError | ObjectInsertError | ObjectDeleteError

text \<open>
  \<open>CmdbObjectManager.insert_object\<close>: the store's insert, \<open>ObjectInsertError\<close> when the id
  is taken; the new id and the store afterwards.
\<close>

definition object_manager_insert_object ::
  "nat \<Rightarrow> store \<Rightarrow> cmdb_object \<Rightarrow> py_exception + int \<times> store" where
  "object_manager_insert_object undeclared st new_object =
     (if 0 < undeclared then Inl TypeError
      else (case store_insert_object st new_object of
              None \<Rightarrow> Inl ObjectInsertError
            | Some st' \<Rightarrow> Inr (obj_public_id new_object, st')))"

text \<open>
  Lines 85 to 100 of the route \<open>insert_object\<close>: the \<open>new_object_data\<close> that is handed to
  the manager, \<open>None\<close> for the \<open>abort(400)\<close> of an id that is taken.
\<close>

definition new_object_data :: "store \<Rightarrow> insert_data \<Rightarrow> cmdb_object option" where
  "new_object_data st request_json =
     (case (case ins_public_id request_json of
              None \<Rightarrow> Some (get_new_id st)
            | Some p \<Rightarrow> (case get_object st p of None \<Rightarrow> Some p | Some _ \<Rightarrow> None)) of
        None \<Rightarrow> None
      | Some public_id \<Rightarrow>
          Some \<lparr>obj_public_id = public_id,
                obj_type_id = ins_type_id request_json,
                obj_version = ''1.0.0'',
                obj_active = (case ins_active request_json of None \<Rightarrow> True | Some a \<Rightarrow> a),
                obj_fields = ins_fields request_json\<rparr>)"

text \<open>
  The route \<open>insert_object\<close>: the HTTP status of \<open>abort\<close> or the new id, and the store
  afterwards. The call \<open>object_manager.insert_object(new_object_data, user=request_user,
  permission=AccessControlPermission.CREATE)\<close> has two arguments the signature does not
  declare; \<open>TypeError\<close> and \<open>ObjectInsertError\<close> are caught by the handler that answers 400.
  The render is a parameter, as in \<open>update_one\<close>.
\<close>

definition insert_object ::
  "(cmdb_type \<Rightarrow> cmdb_object \<Rightarrow> field list option) \<Rightarrow> store \<Rightarrow> insert_data \<Rightarrow> (nat + int) \<times> store" where
  "insert_object render st request_json =
     (case new_object_data st request_json of
        None \<Rightarrow> (Inl 400, st)
      | Some new_object \<Rightarrow>
          (case object_manager_insert_object 2 st new_object of
             Inl err \<Rightarrow>
               (if err = TypeError \<or> err = ObjectInsertError then (Inl 400, st) else (Inl 500, st))
           | Inr (new_object_id, st') \<Rightarrow>
               (case get_type st' (obj_type_id new_object) of
                  None \<Rightarrow> (Inl 404, st')
                | Some current_type_instance \<Rightarrow>
                    (case get_object st' new_object_id of
                       None \<Rightarrow> (Inl 404, st')
                     | Some current_object \<Rightarrow>
                         (case render current_type_instance current_object of
                            None \<Rightarrow> (Inl 500, st')
                          | Some _ \<Rightarrow> (Inr new_object_id, st'))))))"

section \<open>Unstructured objects: \<open>get_unstructured_objects\<close>\<close>

text \<open>
  \<open>manager.iterate({'type_id': public_id}, sort='public_id', order=1)\<close>: the objects of the
  type, by ascending id.
\<close>

definition iterate_by_type :: "store \<Rightarrow> int \<Rightarrow> cmdb_object list" where
  "iterate_by_type st public_id =
     sort_key obj_public_id (filter (\<lambda>ob. obj_type_id ob = public_id) (objects st))"

text \<open>The loop over \<open>objects\<close>, appending to \<open>unstructured\<close>.\<close>

fun unstructured_loop :: "string list \<Rightarrow> cmdb_object list \<Rightarrow> cmdb_object list \<Rightarrow> cmdb_object list" where
  "unstructured_loop tfields [] unstructured = unstructured"
| "unstructured_loop tfields (ob # objs) unstructured =
     (let object_fields = map fst (obj_fields ob)
      in if sort object_fields \<noteq> tfields
         then unstructured_loop tfields objs (unstructured @ [ob])
         else unstructured_loop tfields objs unstructured)"

definition get_unstructured_objects :: "store \<Rightarrow> int \<Rightarrow> nat + cmdb_object list" where
  "get_unstructured_objects st public_id =
     (case get_type st public_id of
        None \<Rightarrow> Inl 400
      | Some type_instance \<Rightarrow>
          Inr (unstructured_loop (sort (map tf_name (type_fields type_instance)))
                 (iterate_by_type st public_id) []))"

section \<open>Deleting objects\<close>

text \<open>
  What the delete routes have done on the store, in order: the deletions carried out, the
  removal of references, and the load of the location snapshot.
\<close>

datatype io =
    DeleteLink int
  | DeleteReferences int
  | IterateLocations
  | DeleteLocation int
  | DeleteObject int

text \<open>
  What a route answers: \<open>abort(status)\<close>, \<open>ErrorBody(status, ...)\<close>, the acknowledgement of
  one deletion, or \<open>{'successfully': ack}\<close>; \<open>Uncaught\<close> is an exception that no handler of
  the route catches, which ends the request with status 500.
\<close>

datatype response =
    Abort nat
  | ErrorBody nat
  | Ack bool
  | Successfully "bool list"
  | Uncaught py_exception

text \<open>
  Modelled from the spec: the managers of links and locations and the store's delete are
  not part of the sources. \<open>Delete(collection, id)\<close> removes the documents with the id and is
  idempotent; \<open>get_location_for_object\<close> and \<open>get_one_by\<close> give the first matching location.
\<close>

definition object_links_delete :: "store \<Rightarrow> int \<Rightarrow> store" where
  "object_links_delete st public_id =
     st\<lparr>links := filter (\<lambda>l. link_public_id l \<noteq> public_id) (links st)\<rparr>"

definition locations_delete :: "store \<Rightarrow> int \<Rightarrow> store" where
  "locations_delete st public_id =
     st\<lparr>locations := filter (\<lambda>l. loc_public_id l \<noteq> public_id) (locations st)\<rparr>"

definition get_location_for_object :: "store \<Rightarrow> int \<Rightarrow> cmdb_location option" where
  "get_location_for_object st object_id =
     List.find (\<lambda>l. loc_object_id l = object_id) (locations st)"

definition get_one_by_parent :: "store \<Rightarrow> int \<Rightarrow> cmdb_location option" where
  "get_one_by_parent st parent = List.find (\<lambda>l. loc_parent l = parent) (locations st)"

text \<open>
  \<open>CmdbObjectManager.delete_object\<close>: \<open>_delete\<close> on the object collection, and
  \<open>ObjectDeleteError\<close> when the store raises, which the parameter \<open>fails\<close> decides for each
  id. The first parameter is the number of arguments of the call that the signature
  \<open>delete_object(self, public_id)\<close> does not declare.
\<close>

definition object_manager_delete_object ::
  "nat \<Rightarrow> (int \<Rightarrow> bool) \<Rightarrow> store \<Rightarrow> int \<Rightarrow> py_exception + bool \<times> store" where
  "object_manager_delete_object undeclared fails st public_id =
     (if 0 < undeclared then Inl TypeError
      else if fails public_id then Inl ObjectDeleteError
      else Inr (True, st\<lparr>objects := filter (\<lambda>ob. obj_public_id ob \<noteq> public_id) (objects st)\<rparr>))"

text \<open>\<open>delete_object_links\<close>: the links with the object on either side, deleted one by one.\<close>

definition delete_object_links :: "store \<Rightarrow> int \<Rightarrow> store \<times> io list" where
  "delete_object_links st public_id =
     (let found = filter (\<lambda>l. link_primary l = public_id \<or> link_secondary l = public_id) (links st)
      in (fold (\<lambda>link s. object_links_delete s (link_public_id link)) found st,
          map (\<lambda>link. DeleteLink (link_public_id link)) found))"

text \<open>
  The two statements under the comment \<open>Remove object links and references\<close>, which every
  delete route runs. \<open>manager.delete_all_object_references\<close> is not part of the sources: it
  is the parameter \<open>refs\<close>, which rewrites the object collection.
\<close>

definition remove_links_and_references ::
  "(int \<Rightarrow> cmdb_object list \<Rightarrow> cmdb_object list) \<Rightarrow> store \<Rightarrow> int \<Rightarrow> store \<times> io list" where
  "remove_links_and_references refs st public_id =
     (case delete_object_links st public_id of
        (st1, io1) \<Rightarrow>
          (st1\<lparr>objects := refs public_id (objects st1)\<rparr>, io1 @ [DeleteReferences public_id]))"

text \<open>
  The instance of \<open>refs\<close> used where a run is evaluated: every field that holds the id, as
  a number or as a string, is reset to the empty string.
\<close>

fun str_nat :: "nat \<Rightarrow> string" where
  "str_nat n =
     (if n < 10 then [char_of (48 + n)] else str_nat (n div 10) @ [char_of (48 + n mod 10)])"

definition str_int :: "int \<Rightarrow> string" where
  "str_int i = (if i < 0 then CHR ''-'' # str_nat (nat (- i)) else str_nat (nat i))"

definition clear_references :: "int \<Rightarrow> cmdb_object list \<Rightarrow> cmdb_object list" where
  "clear_references public_id obs =
     map (\<lambda>ob. ob\<lparr>obj_fields :=
            map (\<lambda>f. if snd f = VInt public_id \<or> snd f = VStr (str_int public_id)
                      then (fst f, VStr []) else f)
              (obj_fields ob)\<rparr>) obs"

text \<open>
  The second \<open>try\<close> block of the route \<open>delete_object\<close>: the location, when there is one,
  then \<open>object_manager.delete_object(public_id, request_user,
  AccessControlPermission.DELETE)\<close>, a call with two arguments the signature does not
  declare. \<open>ObjectDeleteError\<close> is answered with 400; no handler of the block catches
  \<open>TypeError\<close>.
\<close>

definition delete_object_finish ::
  "(int \<Rightarrow> bool) \<Rightarrow> store \<Rightarrow> io list \<Rightarrow> cmdb_location option \<Rightarrow> int \<Rightarrow> response \<times> store \<times> io list" where
  "delete_object_finish fails st io0 current_location public_id =
     (case (case current_location of
              None \<Rightarrow> (st, io0)
            | Some loc \<Rightarrow>
                (locations_delete st (loc_public_id loc), io0 @ [DeleteLocation (loc_public_id loc)])) of
        (st2, io2) \<Rightarrow>
          (case object_manager_delete_object 2 fails st2 public_id of
             Inl err \<Rightarrow> (if err = ObjectDeleteError then Abort 400 else Uncaught err, st2, io2)
           | Inr (ack, st3) \<Rightarrow> (Ack ack, st3, io2 @ [DeleteObject public_id])))"

text \<open>
  The route \<open>delete_object\<close>: the answer, the store afterwards and what was done on it. An
  object without a location is the \<open>ManagerGetError\<close> branch, which goes on to the
  deletion.
\<close>

definition delete_object ::
  "(int \<Rightarrow> cmdb_object list \<Rightarrow> cmdb_object list) \<Rightarrow> (int \<Rightarrow> bool) \<Rightarrow>
   (cmdb_type \<Rightarrow> cmdb_object \<Rightarrow> field list option) \<Rightarrow> store \<Rightarrow> int \<Rightarrow> response \<times> store \<times> io list" where
  "delete_object refs fails render st public_id =
     (case get_object st public_id of
        None \<Rightarrow> (Abort 404, st, [])
      | Some current_object_instance \<Rightarrow>
          (case remove_links_and_references refs st public_id of
             (st1, io1) \<Rightarrow>
               (case get_type st1 (obj_type_id current_object_instance) of
                  None \<Rightarrow> (Abort 404, st1, io1)
                | Some current_type_instance \<Rightarrow>
                    (case render current_type_instance current_object_instance of
                       None \<Rightarrow> (Abort 500, st1, io1)
                     | Some _ \<Rightarrow>
                         (case get_location_for_object st1 public_id of
                            None \<Rightarrow> delete_object_finish fails st1 io1 None public_id
                          | Some current_location \<Rightarrow>
                              (case get_one_by_parent st1 (loc_public_id current_location) of
                                 Some child_location \<Rightarrow> (ErrorBody 405, st1, io1)
                               | None \<Rightarrow>
                                   delete_object_finish fails st1 io1 (Some current_location)
                                     public_id))))))"





text \<open>
  \<open>get_objects_by(public_id={'$in': ids})\<close>: the stored objects whose id is one of \<open>ids\<close>,
  by ascending id.
\<close>

definition get_objects_by_ids :: "store \<Rightarrow> int list \<Rightarrow> cmdb_object list" where
  "get_objects_by_ids st ids =
     sort_key obj_public_id (filter (\<lambda>ob. obj_public_id ob \<in> set ids) (objects st))"

text \<open>
  The second loop of \<open>delete_many_objects\<close>, with \<open>ack\<close> and what was done so far. The
  call \<open>object_manager.delete_object(public_id=..., user=request_user,
  permission=AccessControlPermission.DELETE)\<close> has two arguments the signature does not
  declare; \<open>ObjectDeleteError\<close> is answered with 400, and neither the handlers around the
  call nor those of the route catch \<open>TypeError\<close>.
\<close>

fun delete_many_loop ::
  "(int \<Rightarrow> cmdb_object list \<Rightarrow> cmdb_object list) \<Rightarrow> (int \<Rightarrow> bool) \<Rightarrow>
   (cmdb_type \<Rightarrow> cmdb_object \<Rightarrow> field list option) \<Rightarrow>
   store \<Rightarrow> cmdb_object list \<Rightarrow> bool list \<Rightarrow> io list \<Rightarrow> response \<times> store \<times> io list" where
  "delete_many_loop refs fails render st [] ack io0 = (Successfully ack, st, io0)"
| "delete_many_loop refs fails render st (current_object_instance # rest) ack io0 =
     (case remove_links_and_references refs st (obj_public_id current_object_instance) of
        (st1, io1) \<Rightarrow>
          (case get_type st1 (obj_type_id current_object_instance) of
             None \<Rightarrow> (Abort 404, st1, io0 @ io1)
           | Some current_type_instance \<Rightarrow>
               (case render current_type_instance current_object_instance of
                  None \<Rightarrow> (Abort 500, st1, io0 @ io1)
                | Some _ \<Rightarrow>
                    (case object_manager_delete_object 2 fails st1
                            (obj_public_id current_object_instance) of
                       Inl err \<Rightarrow>
                         (if err = ObjectDeleteError then Abort 400 else Uncaught err, st1, io0 @ io1)
                     | Inr (a, st2) \<Rightarrow>
                         delete_many_loop refs fails render st2 rest (ack @ [a])
                           (io0 @ io1 @ [DeleteObject (obj_public_id current_object_instance)])))))"

text \<open>
  The route \<open>delete_many_objects\<close>. The path parameter is given as its comma-separated
  parts after \<open>int(v)\<close>: \<open>None\<close> for a part that \<open>int\<close> rejects.
\<close>

definition delete_many_objects ::
  "(int \<Rightarrow> cmdb_object list \<Rightarrow> cmdb_object list) \<Rightarrow> (int \<Rightarrow> bool) \<Rightarrow>
   (cmdb_type \<Rightarrow> cmdb_object \<Rightarrow> field list option) \<Rightarrow>
   store \<Rightarrow> int option list \<Rightarrow> response \<times> store \<times> io list" where
  "delete_many_objects refs fails render st public_ids =
     (case those public_ids of
        None \<Rightarrow> (Abort 400, st, [])
      | Some ids \<Rightarrow>
          (let found = get_objects_by_ids st ids
           in if list_ex (\<lambda>ob. get_location_for_object st (obj_public_id ob) \<noteq> None) found
              then (ErrorBody 405, st, [])
              else delete_many_loop refs fails render st found [] []))"

section \<open>A small installation\<close>

text \<open>
  Two types, \<open>Server\<close> (id 1) with the reference field \<open>rack\<close> to \<open>Rack\<close> (id 2); two
  servers in rack 7, one holding the rack's id as a number and one as a string; the rack's
  location is the parent of the servers' locations; one link between server 5 and the rack.
\<close>

definition server_type :: cmdb_type where
  "server_type =
     \<lparr>type_public_id = 1,
      type_fields =
        [\<lparr>tf_name = ''hostname'', tf_type = ''text'', tf_ref_types = [], tf_value = Some (VStr [])\<rparr>,
         \<lparr>tf_name = ''rack'', tf_type = ''ref'', tf_ref_types = [2], tf_value = None\<rparr>]\<rparr>"

definition rack_type :: cmdb_type where
  "rack_type =
     \<lparr>type_public_id = 2,
      type_fields =
        [\<lparr>tf_name = ''label'', tf_type = ''text'', tf_ref_types = [], tf_value = None\<rparr>]\<rparr>"

definition server5 :: cmdb_object where
  "server5 =
     \<lparr>obj_public_id = 5, obj_type_id = 1, obj_version = ''1.0.0'', obj_active = True,
      obj_fields = [(''rack'', VInt 7), (''hostname'', VStr ''web'')]\<rparr>"

definition server6 :: cmdb_object where
  "server6 =
     \<lparr>obj_public_id = 6, obj_type_id = 1, obj_version = ''1.2.0'', obj_active = True,
      obj_fields = [(''hostname'', VStr ''db''), (''rack'', VStr ''7''), (''note'', VStr ''x'')]\<rparr>"

definition rack7 :: cmdb_object where
  "rack7 =
     \<lparr>obj_public_id = 7, obj_type_id = 2, obj_version = ''1.0.0'', obj_active = True,
      obj_fields = [(''label'', VStr ''r7'')]\<rparr>"

definition example_store :: store where
  "example_store =
     \<lparr>objects = [server5, server6, rack7],
      types = [server_type, rack_type],
      locations =
        [\<lparr>loc_public_id = 2, loc_object_id = 7, loc_parent = 1\<rparr>,
         \<lparr>loc_public_id = 3, loc_object_id = 5, loc_parent = 2\<rparr>,
         \<lparr>loc_public_id = 4, loc_object_id = 6, loc_parent = 2\<rparr>],
      links = [\<lparr>link_public_id = 1, link_primary = 5, link_secondary = 7\<rparr>]\<rparr>"

text \<open>The same installation without locations, as bulk deletion needs it.\<close>

definition flat_store :: store where
  "flat_store = example_store\<lparr>locations := []\<rparr>"

text \<open>
  An update of server 5 that renames the host and carries a field the server does not
  have; the same update with the key \<open>value\<close> missing from the host name; and an insert
  that supplies a version of its own.
\<close>

definition example_update :: update_data where
  "example_update =
     \<lparr>data_type_id = 1, data_version = None, data_active = None,
      data_fields = [(Some ''hostname'', Some (VStr ''mail'')), (Some ''owner'', Some (VStr ''me''))],
      data_comment = None\<rparr>"

definition valueless_update :: update_data where
  "valueless_update =
     \<lparr>data_type_id = 1, data_version = None, data_active = None,
      data_fields = [(Some ''hostname'', None), (Some ''owner'', Some (VStr ''me''))],
      data_comment = None\<rparr>"

definition example_insert :: insert_data where
  "example_insert =
     \<lparr>ins_public_id = None, ins_type_id = 2, ins_active = None, ins_version = Some ''9.9.9'',
      ins_fields = [(''label'', VStr ''r8'')]\<rparr>"

section \<open>Backward references: \<open>get_object_references\<close>\<close>

text \<open>
  \<open>get_types_by\<close> with the query \<open>{"fields": {"$elemMatch": {"type": "ref", "$and":
  [{"ref_types": type_id}]}}}\<close>: the stored types with a field of type \<open>ref\<close> whose
  \<open>ref_types\<close> holds the type id, by ascending id.
\<close>

definition get_types_by_ref :: "store \<Rightarrow> int \<Rightarrow> cmdb_type list" where
  "get_types_by_ref st type_id =
     sort_key type_public_id
       (filter (\<lambda>t. list_ex (\<lambda>f. tf_type f = ''ref'' \<and> type_id \<in> set (tf_ref_types f))
                       (type_fields t))
          (types st))"

text \<open>
  The first loop: one entry \<open>{"type_id": ..., "field_name": ref_field['name']}\<close> for each
  type, none for a type whose field lookup raises (\<open>None\<close>).
  \<open>CmdbType.get_field_of_type_with_value\<close> is not part of the sources and is the parameter
  \<open>field_of_type\<close>.
\<close>

fun type_init_loop ::
  "(cmdb_type \<Rightarrow> int \<Rightarrow> type_field option) \<Rightarrow> int \<Rightarrow> cmdb_type list \<Rightarrow> (int \<times> string) list" where
  "type_init_loop field_of_type type_id [] = []"
| "type_init_loop field_of_type type_id (current_loop_type # req_type_list) =
     (case field_of_type current_loop_type type_id of
        None \<Rightarrow> type_init_loop field_of_type type_id req_type_list
      | Some ref_field \<Rightarrow>
          (type_public_id current_loop_type, tf_name ref_field)
          # type_init_loop field_of_type type_id req_type_list)"

text \<open>
  \<open>get_objects_by\<close> with the query \<open>{"type_id": ..., "fields": {"$elemMatch": {"$and":
  [{"name": field_name}], "$or": [{"value": int(public_id)}, {"value":
  str(public_id)}]}}}\<close>.
\<close>

definition get_objects_by_reference :: "store \<Rightarrow> int \<Rightarrow> string \<Rightarrow> int \<Rightarrow> cmdb_object list" where
  "get_objects_by_reference st type_id field_name public_id =
     sort_key obj_public_id
       (filter (\<lambda>ob. obj_type_id ob = type_id
                       \<and> list_ex (\<lambda>f. fst f = field_name
                                       \<and> (snd f = VInt public_id \<or> snd f = VStr (str_int public_id)))
                           (obj_fields ob))
          (objects st))"

text \<open>The second loop, with \<open>referenced_by_objects\<close>.\<close>

fun referenced_loop ::
  "store \<Rightarrow> int \<Rightarrow> (int \<times> string) list \<Rightarrow> cmdb_object list \<Rightarrow> cmdb_object list" where
  "referenced_loop st public_id [] referenced_by_objects = referenced_by_objects"
| "referenced_loop st public_id (possible_object_types # type_init_list) referenced_by_objects =
     referenced_loop st public_id type_init_list
       (referenced_by_objects
        @ get_objects_by_reference st (fst possible_object_types) (snd possible_object_types)
            public_id)"

text \<open>\<open>get_object_references\<close>: \<open>None\<close> is the \<open>ObjectManagerGetError\<close> of \<open>get_object\<close>.\<close>

definition get_object_references ::
  "(cmdb_type \<Rightarrow> int \<Rightarrow> type_field option) \<Rightarrow> store \<Rightarrow> int \<Rightarrow> cmdb_object list option" where
  "get_object_references field_of_type st public_id =
     (case get_object st public_id of
        None \<Rightarrow> None
      | Some ob \<Rightarrow>
          Some (referenced_loop st public_id
                  (type_init_loop field_of_type (obj_type_id ob)
                     (get_types_by_ref st (obj_type_id ob)))
                  []))"

text \<open>
  Modelled from the spec: \<open>get_field_of_type_with_value(input_type='ref',
  _filter='ref_types', value=type_id)\<close> is not part of the sources; the caller reads one
  name from its result, so it gives one field: the first reference field of the type whose
  allowed targets include the value.
\<close>

definition get_field_of_type_with_value :: "cmdb_type \<Rightarrow> int \<Rightarrow> type_field option" where
  "get_field_of_type_with_value t v =
     List.find (\<lambda>f. tf_type f = ''ref'' \<and> v \<in> set (tf_ref_types f)) (type_fields t)"

text \<open>
  A type with two reference fields to \<open>Rack\<close>, and two hosts of that type in rack 7: one
  through the field \<open>rack\<close>, one through the field \<open>backup\<close>.
\<close>

definition host_type :: cmdb_type where
  "host_type =
     \<lparr>type_public_id = 4,
      type_fields =
        [\<lparr>tf_name = ''rack'', tf_type = ''ref'', tf_ref_types = [2], tf_value = None\<rparr>,
         \<lparr>tf_name = ''backup'', tf_type = ''ref'', tf_ref_types = [2], tf_value = None\<rparr>]\<rparr>"

definition host10 :: cmdb_object where
  "host10 =
     \<lparr>obj_public_id = 10, obj_type_id = 4, obj_version = ''1.0.0'', obj_active = True,
      obj_fields = [(''rack'', VInt 7), (''backup'', VInt 0)]\<rparr>"

definition host11 :: cmdb_object where
  "host11 =
     \<lparr>obj_public_id = 11, obj_type_id = 4, obj_version = ''1.0.0'', obj_active = True,
      obj_fields = [(''rack'', VInt 0), (''backup'', VInt 7)]\<rparr>"

definition host_store :: store where
  "host_store =
     \<lparr>objects = [rack7, host10, host11], types = [rack_type, host_type],
      locations = [], links = []\<rparr>"

section \<open>Structural repair: \<open>update_unstructured_objects\<close>\<close>

text \<open>
  The loop \<open>for field in obj_fields\<close> for one type field name, on the lists \<open>correct\<close> and
  \<open>incorrect\<close>, and the loop \<open>for t_field in type_fields\<close> around it.
\<close>

fun inner_loop :: "string \<Rightarrow> field list \<Rightarrow> string list \<times> string list \<Rightarrow> string list \<times> string list" where
  "inner_loop name [] ci = ci"
| "inner_loop name (field # flds) (correct, incorrect) =
     (if name = fst field
      then inner_loop name flds (correct @ [fst field], incorrect)
      else inner_loop name flds (correct, incorrect @ [fst field]))"

fun outer_loop ::
  "type_field list \<Rightarrow> field list \<Rightarrow> string list \<times> string list \<Rightarrow> string list \<times> string list" where
  "outer_loop [] flds ci = ci"
| "outer_loop (t_field # tfs) flds ci = outer_loop tfs flds (inner_loop (tf_name t_field) flds ci)"

definition removed_type_fields :: "type_field list \<Rightarrow> field list \<Rightarrow> string list" where
  "removed_type_fields tfs flds =
     (case outer_loop tfs flds ([], []) of
        (correct, incorrect) \<Rightarrow> filter (\<lambda>item. item \<notin> set correct) incorrect)"

text \<open>
  Modelled from the spec: \<open>manager.update_many\<close> is not part of the sources. With
  \<open>{'$pull': {'fields': {"name": field}}}\<close> it removes the fields of that name from the
  objects with the id; with \<open>add_to_set=True\<close> it appends the field to their field list
  unless the list holds it already.
\<close>

definition pull_field :: "store \<Rightarrow> int \<Rightarrow> string \<Rightarrow> store" where
  "pull_field st public_id name =
     st\<lparr>objects :=
          map (\<lambda>ob. if obj_public_id ob = public_id
                     then ob\<lparr>obj_fields := filter (\<lambda>f. fst f \<noteq> name) (obj_fields ob)\<rparr>
                     else ob)
            (objects st)\<rparr>"

definition add_to_set :: "store \<Rightarrow> int \<Rightarrow> field \<Rightarrow> store" where
  "add_to_set st public_id fld =
     st\<lparr>objects :=
          map (\<lambda>ob. if obj_public_id ob = public_id \<and> fld \<notin> set (obj_fields ob)
                     then ob\<lparr>obj_fields := obj_fields ob @ [fld]\<rparr>
                     else ob)
            (objects st)\<rparr>"

text \<open>The first loop over \<open>objects_by_type\<close>: the fields to remove are pulled one by one.\<close>

definition remove_pass :: "store \<Rightarrow> type_field list \<Rightarrow> cmdb_object list \<Rightarrow> store" where
  "remove_pass st tfs objects_by_type =
     fold (\<lambda>obj s.
             fold (\<lambda>field s'. pull_field s' (obj_public_id obj) field)
               (removed_type_fields tfs (obj_fields obj)) s)
       objects_by_type st"

text \<open>
  The second loop over \<open>objects_by_type\<close>: a type field the object has no field for is
  added with the type's \<open>value\<close>, or \<open>None\<close> when the type field has none.
\<close>

definition add_pass :: "store \<Rightarrow> type_field list \<Rightarrow> cmdb_object list \<Rightarrow> store" where
  "add_pass st tfs objects_by_type =
     fold (\<lambda>obj s.
             fold (\<lambda>t_field s'.
                     if list_ex (\<lambda>item. fst item = tf_name t_field) (obj_fields obj) then s'
                     else add_to_set s' (obj_public_id obj)
                            (tf_name t_field,
                             (case tf_value t_field of None \<Rightarrow> VNone | Some v \<Rightarrow> v)))
               tfs s)
       objects_by_type st"

text \<open>
  The route \<open>update_unstructured_objects\<close>: the store afterwards, or the \<open>ManagerGetError\<close>
  of a type that is not stored.
\<close>

definition update_unstructured_objects :: "store \<Rightarrow> int \<Rightarrow> manager_error + store" where
  "update_unstructured_objects st public_id =
     (case get_type st public_id of
        None \<Rightarrow> Inl ManagerGetError
      | Some update_type_instance \<Rightarrow>
          (let tfs = type_fields update_type_instance;
               st1 = remove_pass st tfs (iterate_by_type st public_id)
           in Inr (add_pass st1 tfs (iterate_by_type st1 public_id))))"

text \<open>
  A type whose last field has been removed, and an object of the type that still has the
  field.
\<close>

definition bare_type :: cmdb_type where
  "bare_type = \<lparr>type_public_id = 3, type_fields = []\<rparr>"

definition legacy9 :: cmdb_object where
  "legacy9 =
     \<lparr>obj_public_id = 9, obj_type_id = 3, obj_version = ''1.0.0'', obj_active = True,
      obj_fields = [(''serial'', VStr ''x'')]\<rparr>"

definition bare_store :: store where
  "bare_store = \<lparr>objects = [legacy9], types = [bare_type], locations = [], links = []\<rparr>"

section \<open>Theorems\<close>

subsection \<open>The admin user\<close>

text \<open>
  C10. Deleting the user with \<open>public_id\<close> 1 raises \<open>ManagerDeleteError\<close> before any lookup
  or store deletion: no store call is made and the user collection is returned as it was,
  so the admin user, when stored, is still stored.
\<close>

theorem admin_delete_refused:
  "UserManager_delete users 1 = (Inl ManagerDeleteError, users, [])"
  by (simp add: UserManager_delete_def)

subsection \<open>Version tier\<close>



text \<open>
  Where the tier is used: the version handed to \<open>manager.update\<close> is the version of the
  update instance bumped at the tier of its number of changes and its number of fields.
\<close>

lemma update_one_version:
  assumes "get_object st obj_id = Some cur"
    and "get_type st (obj_type_id cur) = Some t"
    and "render t cur = Some rendered"
    and "upd = \<lparr>doc_public_id = obj_id, doc_type_id = data_type_id data,
                 doc_version = (case data_version data of None \<Rightarrow> obj_version cur | Some v \<Rightarrow> v),
                 doc_active = (case data_active data of None \<Rightarrow> obj_active cur | Some a \<Rightarrow> a),
                 doc_fields = (case merge_fields (data_fields data) rendered of
                                 None \<Rightarrow> data_fields data
                               | Some merged \<Rightarrow> map (\<lambda>f. (Some (fst f), Some (snd f))) merged)\<rparr>"
  shows "\<exists>new_data.
           update_one render changes_new update_version st data obj_id = Inr new_data
           \<and> doc_version new_data =
               update_version
                 (calc_version (length (changes_new cur upd)) (length (doc_fields upd)))
                 (doc_version upd)"
  using assms by (simp add: update_one_def Let_def)

subsection \<open>Fields of an updated object\<close>

lemma set_value_names: "set_value item olds = Some olds' \<Longrightarrow> map fst olds' = map fst olds"
  by (induction olds arbitrary: olds') (auto split: option.splits if_splits)

lemma merge_fields_names:
  "merge_fields new_fields olds = Some olds' \<Longrightarrow> map fst olds' = map fst olds"
proof (induction new_fields arbitrary: olds)
  case Nil
  then show ?case by simp
next
  case (Cons item new_fields)
  then show ?case
    by (auto split: option.splits dest: set_value_names)
qed

lemma set_value_complete:
  "fst item \<noteq> None \<Longrightarrow> snd item \<noteq> None \<Longrightarrow> \<exists>olds'. set_value item olds = Some olds'"
  by (induction olds) (auto split: option.splits)

lemma merge_fields_complete:
  "\<forall>item\<in>set new_fields. fst item \<noteq> None \<and> snd item \<noteq> None \<Longrightarrow>
   \<exists>olds'. merge_fields new_fields olds = Some olds'"
proof (induction new_fields arbitrary: olds)
  case Nil
  then show ?case by simp
next
  case (Cons item new_fields)
  then obtain olds1 where "set_value item olds = Some olds1"
    using set_value_complete [of item olds] by auto
  with Cons show ?case by simp
qed

text \<open>
  For a payload whose fields all have a name and a value the merge does what it is meant
  to do: the field names handed to \<open>manager.update\<close> are, in order, the names of the
  rendered fields.
\<close>

lemma update_keeps_rendered_names:
  assumes "get_object st obj_id = Some cur"
    and "get_type st (obj_type_id cur) = Some t"
    and "render t cur = Some rendered"
    and "\<forall>item\<in>set (data_fields data). fst item \<noteq> None \<and> snd item \<noteq> None"
  shows "\<exists>new_data.
           update_one render changes_new update_version st data obj_id = Inr new_data
           \<and> map fst (doc_fields new_data) = map (\<lambda>f. Some (fst f)) rendered"
proof -
  from merge_fields_complete [OF assms(4)]
  obtain merged where m: "merge_fields (data_fields data) rendered = Some merged"
    by blast
  have "map (\<lambda>f. Some (fst f)) merged = map Some (map fst merged)"
    by simp
  also have "\<dots> = map Some (map fst rendered)"
    by (simp only: merge_fields_names [OF m])
  also have "\<dots> = map (\<lambda>f. Some (fst f)) rendered"
    by simp
  finally have n: "map (\<lambda>f. Some (fst f)) merged = map (\<lambda>f. Some (fst f)) rendered" .
  have "update_one render changes_new update_version st data obj_id
        = Inr (\<lparr>doc_public_id = obj_id, doc_type_id = data_type_id data,
                 doc_version = (case data_version data of None \<Rightarrow> obj_version cur | Some v \<Rightarrow> v),
                 doc_active = (case data_active data of None \<Rightarrow> obj_active cur | Some a \<Rightarrow> a),
                 doc_fields = map (\<lambda>f. (Some (fst f), Some (snd f))) merged\<rparr>
               \<lparr>doc_version :=
                  update_version
                    (calc_version
                       (length (changes_new cur
                          \<lparr>doc_public_id = obj_id, doc_type_id = data_type_id data,
                           doc_version = (case data_version data of None \<Rightarrow> obj_version cur | Some v \<Rightarrow> v),
                           doc_active = (case data_active data of None \<Rightarrow> obj_active cur | Some a \<Rightarrow> a),
                           doc_fields = map (\<lambda>f. (Some (fst f), Some (snd f))) merged\<rparr>))
                       (length (map (\<lambda>f. (Some (fst f), Some (snd f))) merged)))
                    (case data_version data of None \<Rightarrow> obj_version cur | Some v \<Rightarrow> v)\<rparr>)"
    using assms(1-3) m by (simp add: update_one_def Let_def)
  then show ?thesis
    using n by (simp add: comp_def)
qed

text \<open>
  C9 fails on a payload field that has a matching name and no value: \<open>item['value']\<close>
  raises \<open>KeyError\<close> before \<open>new_data['fields'] = old_fields\<close>, the handler resets the
  comment, and the payload's own field list is handed to \<open>manager.update\<close>. For server 5,
  rendered with the fields \<open>hostname\<close> and \<open>rack\<close>, the update persists the fields
  \<open>hostname\<close>, without a value, and \<open>owner\<close>, which the server does not have; the same
  update with a value for the host name persists \<open>hostname\<close> and \<open>rack\<close>.
\<close>

theorem update_persists_payload_after_key_error:
  "render_fields server_type server5 = Some [(''hostname'', VStr ''web''), (''rack'', VInt 7)]
   \<and> merge_fields (data_fields valueless_update)
         [(''hostname'', VStr ''web''), (''rack'', VInt 7)] = None
   \<and> update_one render_fields (\<lambda>cur upd. []) (\<lambda>tier v. v) example_store valueless_update 5
       = Inr \<lparr>doc_public_id = 5, doc_type_id = 1, doc_version = ''1.0.0'', doc_active = True,
               doc_fields = [(Some ''hostname'', None), (Some ''owner'', Some (VStr ''me''))]\<rparr>
   \<and> update_one render_fields (\<lambda>cur upd. []) (\<lambda>tier v. v) example_store example_update 5
       = Inr \<lparr>doc_public_id = 5, doc_type_id = 1, doc_version = ''1.0.0'', doc_active = True,
               doc_fields = [(Some ''hostname'', Some (VStr ''mail'')),
                             (Some ''rack'', Some (VInt 7))]\<rparr>"
  by code_simp

subsection \<open>Inserted objects\<close>

lemma new_object_data_version:
  "new_object_data st request_json = Some new_object \<Longrightarrow> obj_version new_object = ''1.0.0''"
  by (auto simp: new_object_data_def split: option.splits)

lemma find_append_new:
  "List.find P xs = None \<Longrightarrow> P x \<Longrightarrow> List.find P (xs @ [x]) = Some x"
  by (induction xs) (auto split: if_splits)

text \<open>
  Called as its signature declares it, the manager stores what the route has prepared:
  the object with version \<open>1.0.0\<close>, found under its id afterwards.
\<close>

lemma declared_insert_stores_version:
  assumes "new_object_data st request_json = Some new_object"
  shows "\<exists>st'. object_manager_insert_object 0 st new_object = Inr (obj_public_id new_object, st')
           \<and> objects st' = objects st @ [new_object]
           \<and> get_object st' (obj_public_id new_object) = Some new_object
           \<and> obj_version new_object = ''1.0.0''"
proof -
  from assms have v: "obj_version new_object = ''1.0.0''"
    by (rule new_object_data_version)
  have fresh: "get_object st (get_new_id st) = None"
  proof -
    have le: "\<And>xs (a::int). a \<le> fold max xs a \<and> (\<forall>x\<in>set xs. x \<le> fold max xs a)"
    proof -
      fix xs :: "int list" and a :: int
      show "a \<le> fold max xs a \<and> (\<forall>x\<in>set xs. x \<le> fold max xs a)"
      proof (induction xs arbitrary: a)
        case Nil
        show ?case by simp
      next
        case (Cons y ys)
        from Cons [of "max y a"] show ?case by auto
      qed
    qed
    have "\<forall>ob\<in>set (objects st). obj_public_id ob < get_new_id st"
      using le [of 0 "map obj_public_id (objects st)"] by (auto simp: get_new_id_def)
    then show ?thesis
      by (auto simp: get_object_def find_None_iff)
  qed
  from assms fresh have free: "get_object st (obj_public_id new_object) = None"
    by (auto simp: new_object_data_def split: option.splits)
  then have "List.find (\<lambda>x. obj_public_id x = obj_public_id new_object) (objects st @ [new_object])
             = Some new_object"
    unfolding get_object_def by (rule find_append_new) simp
  with free v show ?thesis
    by (simp add: object_manager_insert_object_def store_insert_object_def get_object_def)
qed

text \<open>
  The route calls the manager with two arguments more: every insert is answered with 400
  and leaves the store as it was.
\<close>

lemma insert_object_stores_nothing:
  "insert_object render st request_json = (Inl 400, st)"
  by (simp add: insert_object_def object_manager_insert_object_def split: option.splits)

text \<open>
  C8 fails on every insert: the route prepares the object with version \<open>1.0.0\<close>, whatever
  the request supplies, and the call that should store it raises \<open>TypeError\<close>. The insert
  of a rack with the requested version \<open>9.9.9\<close> is answered with 400 and no object 8 is
  stored.
\<close>

theorem insert_object_raises_type_error:
  "new_object_data example_store example_insert
     = Some \<lparr>obj_public_id = 8, obj_type_id = 2, obj_version = ''1.0.0'', obj_active = True,
              obj_fields = [(''label'', VStr ''r8'')]\<rparr>
   \<and> object_manager_insert_object 2 example_store
         \<lparr>obj_public_id = 8, obj_type_id = 2, obj_version = ''1.0.0'', obj_active = True,
          obj_fields = [(''label'', VStr ''r8'')]\<rparr> = Inl TypeError
   \<and> insert_object render_fields example_store example_insert = (Inl 400, example_store)
   \<and> get_object example_store 8 = None"
  by code_simp

subsection \<open>Unstructured objects\<close>

lemma unstructured_loop_filter:
  "unstructured_loop tfields objs acc =
     acc @ filter (\<lambda>ob. sort (map fst (obj_fields ob)) \<noteq> tfields) objs"
  by (induction objs arbitrary: acc) (auto simp: Let_def)

lemma sort_eq_iff_mset: "(sort xs = sort ys) = (mset xs = mset ys)"
proof
  assume "sort xs = sort ys"
  then have "mset (sort xs) = mset (sort ys)" by simp
  then show "mset xs = mset ys" by simp
next
  assume "mset xs = mset ys"
  then show "sort xs = sort ys"
    by (metis mset_sort properties_for_sort sorted_sort)
qed

text \<open>
  C6. For a type that exists, the route returns, by ascending id, exactly the objects of
  the type whose sorted field-name list differs from the type's sorted field-name list;
  an object is reported if and only if its field names are not a permutation of the
  type's field names.
\<close>

theorem unstructured_exactly:
  assumes "get_type st public_id = Some type_instance"
  shows "\<exists>unstructured.
           get_unstructured_objects st public_id = Inr unstructured
           \<and> unstructured =
               filter (\<lambda>ob. sort (map fst (obj_fields ob))
                            \<noteq> sort (map tf_name (type_fields type_instance)))
                 (iterate_by_type st public_id)
           \<and> (\<forall>ob. (ob \<in> set unstructured) =
                 (ob \<in> set (iterate_by_type st public_id)
                  \<and> mset (map fst (obj_fields ob))
                      \<noteq> mset (map tf_name (type_fields type_instance))))"
  using assms
  by (simp add: get_unstructured_objects_def unstructured_loop_filter sort_eq_iff_mset)

text \<open>
  C6 on the servers: server 5 holds the type's field names in another order and is not
  reported; server 6 has a field the type lacks and is.
\<close>

theorem unstructured_exactly_witness:
  "get_type example_store 1 = Some server_type
   \<and> get_unstructured_objects example_store 1 = Inr [server6]"
proof -
  have h: "get_type example_store 1 = Some server_type"
    by code_simp
  have it: "iterate_by_type example_store 1 = [server5, server6]"
    by code_simp
  have s5: "sort (map fst (obj_fields server5)) = sort (map tf_name (type_fields server_type))"
    by code_simp
  have s6: "sort (map fst (obj_fields server6)) \<noteq> sort (map tf_name (type_fields server_type))"
    by code_simp
  from unstructured_exactly [OF h] show ?thesis
    using h by (simp add: it s5 s6)
qed

subsection \<open>Refused single delete\<close>

lemma fold_links_delete:
  "fold (\<lambda>link s. object_links_delete s (f link)) xs st =
     st\<lparr>links := filter (\<lambda>l. link_public_id l \<notin> f ` set xs) (links st)\<rparr>"
proof (induction xs arbitrary: st)
  case Nil
  then show ?case by simp
next
  case (Cons x xs)
  have "fold (\<lambda>link s. object_links_delete s (f link)) (x # xs) st
        = fold (\<lambda>link s. object_links_delete s (f link)) xs (object_links_delete st (f x))"
    by simp
  also have "\<dots> = (object_links_delete st (f x))
      \<lparr>links := filter (\<lambda>l. link_public_id l \<notin> f ` set xs) (links (object_links_delete st (f x)))\<rparr>"
    by (rule Cons.IH)
  also have "\<dots> = st\<lparr>links := filter (\<lambda>l. link_public_id l \<notin> f ` set (x # xs)) (links st)\<rparr>"
    by (simp add: object_links_delete_def conj_commute)
  finally show ?case .
qed

lemma remove_links_and_references_frame:
  assumes "remove_links_and_references refs st i = (st1, io1)"
  shows "types st1 = types st" and "locations st1 = locations st"
    and "objects st1 = refs i (objects st)" and "set (links st1) \<subseteq> set (links st)"
    and "io1 = map (\<lambda>l. DeleteLink (link_public_id l))
                 (filter (\<lambda>l. link_primary l = i \<or> link_secondary l = i) (links st))
               @ [DeleteReferences i]"
  using assms
  by (auto simp: remove_links_and_references_def delete_object_links_def Let_def fold_links_delete)

lemma delete_object_finish_not_405:
  "fst (delete_object_finish fails st io0 cl i) \<noteq> ErrorBody 405"
  by (auto simp: delete_object_finish_def split: option.splits prod.splits sum.splits)

text \<open>
  The refusal itself: for a stored object that renders and is bound to a location, the
  route answers 405 exactly when that location has a child location, and then no location
  and no type is touched and no object or location deletion is carried out.
\<close>

lemma delete_object_refused_iff_children:
  assumes "get_object st public_id = Some cur"
    and "get_type st (obj_type_id cur) = Some t"
    and "render t cur = Some rendered"
    and "get_location_for_object st public_id = Some loc"
  shows "((fst (delete_object refs fails render st public_id) = ErrorBody 405)
           = (\<exists>c\<in>set (locations st). loc_parent c = loc_public_id loc))
         \<and> ((\<exists>c\<in>set (locations st). loc_parent c = loc_public_id loc) \<longrightarrow>
              (\<exists>st' io'. delete_object refs fails render st public_id = (ErrorBody 405, st', io')
                 \<and> locations st' = locations st
                 \<and> types st' = types st
                 \<and> objects st' = refs public_id (objects st)
                 \<and> set (links st') \<subseteq> set (links st)
                 \<and> io' = map (\<lambda>l. DeleteLink (link_public_id l))
                            (filter (\<lambda>l. link_primary l = public_id \<or> link_secondary l = public_id)
                               (links st))
                          @ [DeleteReferences public_id]))"
proof -
  obtain st1 io1 where r: "remove_links_and_references refs st public_id = (st1, io1)"
    by (cases "remove_links_and_references refs st public_id")
  note fr = remove_links_and_references_frame [OF r]
  have ty: "get_type st1 (obj_type_id cur) = Some t"
    using assms(2) fr(1) by (simp add: get_type_def)
  have lo: "get_location_for_object st1 public_id = Some loc"
    using assms(4) fr(2) by (simp add: get_location_for_object_def)
  show ?thesis
  proof (cases "get_one_by_parent st1 (loc_public_id loc)")
    case None
    then have "\<not> (\<exists>c\<in>set (locations st). loc_parent c = loc_public_id loc)"
      using fr(2) by (simp add: get_one_by_parent_def find_None_iff)
    moreover have "delete_object refs fails render st public_id
        = delete_object_finish fails st1 io1 (Some loc) public_id"
      using assms(1,3) r ty lo None by (simp add: delete_object_def)
    ultimately show ?thesis
      using delete_object_finish_not_405 [of fails st1 io1 "Some loc" public_id] by simp
  next
    case (Some child)
    then have "\<exists>c\<in>set (locations st). loc_parent c = loc_public_id loc"
      using fr(2) by (auto simp: get_one_by_parent_def find_Some_iff)
    moreover have "delete_object refs fails render st public_id = (ErrorBody 405, st1, io1)"
      using assms(1,3) r ty lo Some by (simp add: delete_object_def)
    ultimately show ?thesis
      using fr by simp
  qed
qed

text \<open>
  C3 fails on an object with a link: deleting rack 7, whose location has child locations,
  is refused with 405, but the request has already deleted the link between server 5 and
  the rack, so the state is not what it was. The bulk delete of the same rack is refused
  with 405 before anything is touched.
\<close>

theorem delete_object_refused_after_link_removal:
  "fst (delete_object clear_references (\<lambda>_. False) render_fields example_store 7) = ErrorBody 405
   \<and> links example_store = [\<lparr>link_public_id = 1, link_primary = 5, link_secondary = 7\<rparr>]
   \<and> links (fst (snd (delete_object clear_references (\<lambda>_. False) render_fields example_store 7))) = []
   \<and> snd (snd (delete_object clear_references (\<lambda>_. False) render_fields example_store 7))
       = [DeleteLink 1, DeleteReferences 7]
   \<and> delete_many_objects clear_references (\<lambda>_. False) render_fields example_store [Some 7]
       = (ErrorBody 405, example_store, [])"
  by code_simp

subsection \<open>Cascade delete\<close>







subsection \<open>Bulk delete\<close>


text \<open>
  The deletion itself: on the small installation without locations the bulk delete of
  5, 8 and 7 raises at server 5, and no object is deleted.
\<close>

lemma bulk_delete_raises:
  "fst (delete_many_objects clear_references (\<lambda>i. False) render_fields flat_store
          [Some 5, Some 8, Some 7]) = Uncaught TypeError
   \<and> map obj_public_id
         (objects (fst (snd (delete_many_objects clear_references (\<lambda>i. False) render_fields
                               flat_store [Some 5, Some 8, Some 7])))) = [5, 6, 7]"
  by code_simp




subsection \<open>Backward references\<close>

lemma referenced_loop_concat:
  "referenced_loop st public_id type_init_list acc =
     acc @ concat (map (\<lambda>p. get_objects_by_reference st (fst p) (snd p) public_id) type_init_list)"
  by (induction type_init_list arbitrary: acc) auto

lemma type_init_loop_set:
  "(p \<in> set (type_init_loop field_of_type type_id ts)) =
     (\<exists>t f. t \<in> set ts \<and> field_of_type t type_id = Some f
            \<and> p = (type_public_id t, tf_name f))"
  by (induction ts) (auto split: option.splits)

lemma get_object_references_set:
  assumes "get_object st public_id = Some target"
  shows "\<exists>referenced.
           get_object_references field_of_type st public_id = Some referenced
           \<and> (\<forall>ob. (ob \<in> set referenced) =
                 (ob \<in> set (objects st)
                  \<and> (\<exists>t f. t \<in> set (types st)
                         \<and> list_ex (\<lambda>g. tf_type g = ''ref''
                                         \<and> obj_type_id target \<in> set (tf_ref_types g))
                             (type_fields t)
                         \<and> field_of_type t (obj_type_id target) = Some f
                         \<and> obj_type_id ob = type_public_id t
                         \<and> list_ex (\<lambda>fld. fst fld = tf_name f
                                           \<and> (snd fld = VInt public_id
                                                \<or> snd fld = VStr (str_int public_id)))
                             (obj_fields ob))))"
proof -
  let ?tl = "type_init_loop field_of_type (obj_type_id target)
               (get_types_by_ref st (obj_type_id target))"
  have run: "get_object_references field_of_type st public_id
             = Some (concat (map (\<lambda>p. get_objects_by_reference st (fst p) (snd p) public_id) ?tl))"
    using assms by (simp add: get_object_references_def referenced_loop_concat)
  have ts: "set (get_types_by_ref st (obj_type_id target))
            = {t \<in> set (types st).
                 list_ex (\<lambda>g. tf_type g = ''ref'' \<and> obj_type_id target \<in> set (tf_ref_types g))
                   (type_fields t)}"
    by (simp add: get_types_by_ref_def)
  have obs: "\<And>ob tid fname. (ob \<in> set (get_objects_by_reference st tid fname public_id)) =
               (ob \<in> set (objects st) \<and> obj_type_id ob = tid
                \<and> list_ex (\<lambda>fld. fst fld = fname
                                  \<and> (snd fld = VInt public_id \<or> snd fld = VStr (str_int public_id)))
                     (obj_fields ob))"
    by (auto simp: get_objects_by_reference_def)
  have key: "\<And>Q. (\<exists>x\<in>set ?tl. Q x) =
                 (\<exists>t f. t \<in> set (types st)
                    \<and> list_ex (\<lambda>g. tf_type g = ''ref''
                                    \<and> obj_type_id target \<in> set (tf_ref_types g))
                        (type_fields t)
                    \<and> field_of_type t (obj_type_id target) = Some f
                    \<and> Q (type_public_id t, tf_name f))"
    unfolding Bex_def type_init_loop_set ts by blast
  have "\<forall>ob. (ob \<in> set (concat (map (\<lambda>p. get_objects_by_reference st (fst p) (snd p) public_id) ?tl))) =
                 (ob \<in> set (objects st)
                  \<and> (\<exists>t f. t \<in> set (types st)
                         \<and> list_ex (\<lambda>g. tf_type g = ''ref''
                                         \<and> obj_type_id target \<in> set (tf_ref_types g))
                             (type_fields t)
                         \<and> field_of_type t (obj_type_id target) = Some f
                         \<and> obj_type_id ob = type_public_id t
                         \<and> list_ex (\<lambda>fld. fst fld = tf_name f
                                           \<and> (snd fld = VInt public_id
                                                \<or> snd fld = VStr (str_int public_id)))
                             (obj_fields ob)))"
    by (simp add: obs key)
  with run show ?thesis
    by blast
qed

text \<open>
  C5 (amended). For a stored object, the result holds exactly the stored objects \<open>ob\<close> for
  which some stored type \<open>t\<close> has a reference field whose allowed targets include the
  object's type, the field lookup on \<open>t\<close> gives the field \<open>f\<close>, \<open>ob\<close> is of type \<open>t\<close>, and
  \<open>ob\<close> has a field named as \<open>f\<close> whose value is the queried id as a number or as a
  string. One field is looked at for each type.
\<close>

theorem references_by_selected_field:
  assumes "get_object st public_id = Some target"
  shows "\<exists>referenced.
           get_object_references field_of_type st public_id = Some referenced
           \<and> (\<forall>ob. (ob \<in> set referenced) =
                 (ob \<in> set (objects st)
                  \<and> (\<exists>t f. t \<in> set (types st)
                         \<and> list_ex (\<lambda>g. tf_type g = ''ref''
                                         \<and> obj_type_id target \<in> set (tf_ref_types g))
                             (type_fields t)
                         \<and> field_of_type t (obj_type_id target) = Some f
                         \<and> obj_type_id ob = type_public_id t
                         \<and> list_ex (\<lambda>fld. fst fld = tf_name f
                                           \<and> (snd fld = VInt public_id
                                                \<or> snd fld = VStr (str_int public_id)))
                             (obj_fields ob))))"
  using assms by (rule get_object_references_set)

text \<open>
  C5, the claim as stated fails: host 11 is of a type with the reference field \<open>backup\<close>
  to racks and holds 7 in it, and is not among the objects that reference rack 7, because
  only the field \<open>rack\<close> of its type is looked at.
\<close>

theorem second_reference_field_missed:
  "get_object_references get_field_of_type_with_value host_store 7 = Some [host10]
   \<and> host11 \<in> set (objects host_store)
   \<and> host_type \<in> set (types host_store)
   \<and> obj_type_id host11 = type_public_id host_type
   \<and> \<lparr>tf_name = ''backup'', tf_type = ''ref'', tf_ref_types = [2], tf_value = None\<rparr>
       \<in> set (type_fields host_type)
   \<and> obj_type_id rack7 = 2
   \<and> (''backup'', VInt 7) \<in> set (obj_fields host11)"
  by code_simp

text \<open>
  The same holds for any field lookup that gives one field for a type: hosts 10 and 11
  are never both among the objects that reference rack 7.
\<close>

lemma one_field_per_type:
  assumes "get_object_references field_of_type host_store 7 = Some referenced"
  shows "\<not> (host10 \<in> set referenced \<and> host11 \<in> set referenced)"
proof -
  have g: "get_object host_store 7 = Some rack7"
    by code_simp
  have ty: "types host_store = [rack_type, host_type]"
    by (simp add: host_store_def)
  have t10: "obj_type_id host10 = 4" and t11: "obj_type_id host11 = 4"
    and f10: "obj_fields host10 = [(''rack'', VInt 7), (''backup'', VInt 0)]"
    and f11: "obj_fields host11 = [(''rack'', VInt 0), (''backup'', VInt 7)]"
    and tr: "type_public_id rack_type = 2" and th: "type_public_id host_type = 4"
    by (simp_all add: host10_def host11_def rack_type_def host_type_def)
  have s7: "str_int 7 = ''7''"
    by code_simp
  from get_object_references_set [OF g, of field_of_type] assms
  have iff: "\<And>ob. (ob \<in> set referenced) =
                 (ob \<in> set (objects host_store)
                  \<and> (\<exists>t f. t \<in> set (types host_store)
                         \<and> list_ex (\<lambda>g. tf_type g = ''ref''
                                         \<and> obj_type_id rack7 \<in> set (tf_ref_types g))
                             (type_fields t)
                         \<and> field_of_type t (obj_type_id rack7) = Some f
                         \<and> obj_type_id ob = type_public_id t
                         \<and> list_ex (\<lambda>fld. fst fld = tf_name f
                                           \<and> (snd fld = VInt 7 \<or> snd fld = VStr (str_int 7)))
                             (obj_fields ob)))"
    by simp
  show ?thesis
  proof
    assume both: "host10 \<in> set referenced \<and> host11 \<in> set referenced"
    from both obtain f where f: "field_of_type host_type (obj_type_id rack7) = Some f"
      and n: "tf_name f = ''rack''"
      unfolding iff [of host10] by (auto simp: ty t10 f10 tr th s7)
    from both obtain f' where f': "field_of_type host_type (obj_type_id rack7) = Some f'"
      and n': "tf_name f' = ''backup''"
      unfolding iff [of host11] by (auto simp: ty t11 f11 tr th s7)
    from f f' n n' show False by simp
  qed
qed

text \<open>
  C5 (amended) on rack 7 of the small installation: server 5, with \<open>rack = 7\<close>, and server
  6, with \<open>rack = '7'\<close>, both reference it.
\<close>

theorem references_by_selected_field_witness:
  "get_object example_store 7 = Some rack7
   \<and> (\<exists>referenced.
         get_object_references get_field_of_type_with_value example_store 7 = Some referenced
         \<and> server5 \<in> set referenced \<and> server6 \<in> set referenced
         \<and> rack7 \<notin> set referenced)"
proof -
  let ?rack = "\<lparr>tf_name = ''rack'', tf_type = ''ref'', tf_ref_types = [2], tf_value = None\<rparr>"
  have g: "get_object example_store 7 = Some rack7"
    by code_simp
  have t: "server_type \<in> set (types example_store)
           \<and> list_ex (\<lambda>g. tf_type g = ''ref'' \<and> obj_type_id rack7 \<in> set (tf_ref_types g))
               (type_fields server_type)
           \<and> get_field_of_type_with_value server_type (obj_type_id rack7) = Some ?rack"
    by code_simp
  have r5: "server5 \<in> set (objects example_store)
            \<and> obj_type_id server5 = type_public_id server_type
            \<and> list_ex (\<lambda>fld. fst fld = tf_name ?rack
                              \<and> (snd fld = VInt 7 \<or> snd fld = VStr (str_int 7)))
                (obj_fields server5)"
    by code_simp
  have r6: "server6 \<in> set (objects example_store)
            \<and> obj_type_id server6 = type_public_id server_type
            \<and> list_ex (\<lambda>fld. fst fld = tf_name ?rack
                              \<and> (snd fld = VInt 7 \<or> snd fld = VStr (str_int 7)))
                (obj_fields server6)"
    by code_simp
  have r7: "\<not> list_ex (\<lambda>fld. snd fld = VInt 7 \<or> snd fld = VStr (str_int 7)) (obj_fields rack7)"
    by code_simp
  from references_by_selected_field [OF g, of get_field_of_type_with_value]
  obtain referenced where
    run: "get_object_references get_field_of_type_with_value example_store 7 = Some referenced"
    and iff: "\<And>ob. (ob \<in> set referenced) =
                 (ob \<in> set (objects example_store)
                  \<and> (\<exists>t f. t \<in> set (types example_store)
                         \<and> list_ex (\<lambda>g. tf_type g = ''ref''
                                         \<and> obj_type_id rack7 \<in> set (tf_ref_types g))
                             (type_fields t)
                         \<and> get_field_of_type_with_value t (obj_type_id rack7) = Some f
                         \<and> obj_type_id ob = type_public_id t
                         \<and> list_ex (\<lambda>fld. fst fld = tf_name f
                                           \<and> (snd fld = VInt 7 \<or> snd fld = VStr (str_int 7)))
                             (obj_fields ob)))"
    by blast
  have "server5 \<in> set referenced"
    unfolding iff using t r5 by blast
  moreover have "server6 \<in> set referenced"
    unfolding iff using t r6 by blast
  moreover have "rack7 \<notin> set referenced"
    unfolding iff using r7 by (auto simp: list_ex_iff)
  ultimately show ?thesis
    using g run by simp
qed

subsection \<open>Structural repair\<close>

lemma inner_loop_lists:
  "inner_loop name flds (c, i) =
     (c @ filter (\<lambda>n. name = n) (map fst flds), i @ filter (\<lambda>n. name \<noteq> n) (map fst flds))"
  by (induction flds arbitrary: c i) auto

lemma outer_loop_sets:
  shows "set (fst (outer_loop tfs flds (c, i)))
         = set c \<union> {n \<in> fst ` set flds. n \<in> tf_name ` set tfs}"
    and "set (snd (outer_loop tfs flds (c, i)))
         = set i \<union> {n \<in> fst ` set flds. \<exists>tf\<in>set tfs. tf_name tf \<noteq> n}"
proof (induction tfs arbitrary: c i)
  case Nil
  {
    case 1
    show ?case by simp
  next
    case 2
    show ?case by simp
  }
next
  case (Cons tf tfs)
  {
    case 1
    show ?case
      by (simp add: inner_loop_lists Cons.IH(1)) auto
  next
    case 2
    show ?case
      by (simp add: inner_loop_lists Cons.IH(2)) auto
  }
qed

lemma removed_type_fields_set:
  assumes "tfs \<noteq> []"
  shows "set (removed_type_fields tfs flds) = {n \<in> fst ` set flds. n \<notin> tf_name ` set tfs}"
proof -
  obtain c i where o: "outer_loop tfs flds ([], []) = (c, i)"
    by (cases "outer_loop tfs flds ([], [])")
  from outer_loop_sets [of tfs flds "[]" "[]"] o
  have c: "set c = {n \<in> fst ` set flds. n \<in> tf_name ` set tfs}"
    and i: "set i = {n \<in> fst ` set flds. \<exists>tf\<in>set tfs. tf_name tf \<noteq> n}"
    by simp_all
  from assms obtain tf where tf: "tf \<in> set tfs"
    by (cases tfs) auto
  have "set (removed_type_fields tfs flds) = set i - set c"
    by (auto simp: removed_type_fields_def o)
  also have "\<dots> = {n \<in> fst ` set flds. n \<notin> tf_name ` set tfs}"
  proof -
    have "\<And>n. n \<notin> tf_name ` set tfs \<Longrightarrow> \<exists>tf\<in>set tfs. tf_name tf \<noteq> n"
      using tf by (metis imageI)
    then show ?thesis
      unfolding c i by auto
  qed
  finally show ?thesis .
qed

lemma fold_by_id:
  assumes "\<And>a ob. obj_public_id (g a ob) = obj_public_id ob"
  shows "fold (\<lambda>a s. s\<lparr>objects := map (\<lambda>ob. if obj_public_id ob = i then g a ob else ob) (objects s)\<rparr>) as s
         = s\<lparr>objects := map (\<lambda>ob. if obj_public_id ob = i then fold g as ob else ob) (objects s)\<rparr>"
proof (induction as arbitrary: s)
  case Nil
  show ?case by (cases s) (simp add: map_idI)
next
  case (Cons a as)
  let ?s1 = "s\<lparr>objects := map (\<lambda>ob. if obj_public_id ob = i then g a ob else ob) (objects s)\<rparr>"
  have "fold (\<lambda>a s. s\<lparr>objects := map (\<lambda>ob. if obj_public_id ob = i then g a ob else ob) (objects s)\<rparr>) (a # as) s
        = fold (\<lambda>a s. s\<lparr>objects := map (\<lambda>ob. if obj_public_id ob = i then g a ob else ob) (objects s)\<rparr>) as ?s1"
    by simp
  also have "\<dots> = ?s1\<lparr>objects := map (\<lambda>ob. if obj_public_id ob = i then fold g as ob else ob) (objects ?s1)\<rparr>"
    by (rule Cons.IH)
  also have "\<dots> = s\<lparr>objects := map (\<lambda>ob. if obj_public_id ob = i then fold g (a # as) ob else ob) (objects s)\<rparr>"
    by (simp add: assms comp_def)
  finally show ?case .
qed

lemma fold_by_distinct_ids:
  assumes hid: "\<And>x ob. obj_public_id (h x ob) = obj_public_id ob"
    and "distinct (map obj_public_id L)"
  shows "fold (\<lambda>x s. s\<lparr>objects := map (\<lambda>ob. if obj_public_id ob = obj_public_id x then h x ob else ob)
                                   (objects s)\<rparr>) L s
         = s\<lparr>objects := map (\<lambda>ob. case List.find (\<lambda>x. obj_public_id x = obj_public_id ob) L of
                                     None \<Rightarrow> ob | Some x \<Rightarrow> h x ob) (objects s)\<rparr>"
  using assms(2)
proof (induction L arbitrary: s)
  case Nil
  show ?case by (cases s) (simp add: map_idI)
next
  case (Cons x L)
  let ?step = "\<lambda>x s. s\<lparr>objects := map (\<lambda>ob. if obj_public_id ob = obj_public_id x then h x ob else ob)
                                      (objects s)\<rparr>"
  let ?s1 = "?step x s"
  from Cons.prems have d: "distinct (map obj_public_id L)"
    and fresh: "obj_public_id x \<notin> obj_public_id ` set L"
    by simp_all
  from fresh have none: "List.find (\<lambda>y. obj_public_id y = obj_public_id x) L = None"
    unfolding find_None_iff by (metis imageI)
  have "fold ?step (x # L) s = fold ?step L ?s1"
    by simp
  also have "\<dots> = ?s1\<lparr>objects := map (\<lambda>ob. case List.find (\<lambda>x. obj_public_id x = obj_public_id ob) L of
                                     None \<Rightarrow> ob | Some x \<Rightarrow> h x ob) (objects ?s1)\<rparr>"
    by (rule Cons.IH [OF d])
  also have "\<dots> = s\<lparr>objects := map (\<lambda>ob. case List.find (\<lambda>y. obj_public_id y = obj_public_id ob) (x # L) of
                                     None \<Rightarrow> ob | Some x \<Rightarrow> h x ob) (objects s)\<rparr>"
    by (simp add: comp_def hid none cong: if_cong)
  finally show ?case .
qed

lemma find_own:
  assumes "distinct (map obj_public_id xs)" and "ob \<in> set xs" and "set L \<subseteq> set xs"
  shows "List.find (\<lambda>x. obj_public_id x = obj_public_id ob) L = (if ob \<in> set L then Some ob else None)"
proof -
  from assms(1) have inj: "inj_on obj_public_id (set xs)"
    by (simp add: distinct_map)
  have eq: "\<And>x. x \<in> set L \<Longrightarrow> obj_public_id x = obj_public_id ob \<Longrightarrow> x = ob"
    using inj assms(2,3) by (auto dest: inj_onD)
  show ?thesis
  proof (cases "List.find (\<lambda>x. obj_public_id x = obj_public_id ob) L")
    case None
    then show ?thesis by (auto simp: find_None_iff)
  next
    case (Some x)
    then have "x \<in> set L" and "obj_public_id x = obj_public_id ob"
      by (auto simp: find_Some_iff)
    with eq have "x = ob" and "ob \<in> set L" by auto
    with Some show ?thesis by simp
  qed
qed

lemma distinct_iterate_by_type:
  assumes "distinct (map obj_public_id (objects st))"
  shows "distinct (map obj_public_id (iterate_by_type st tid))"
proof -
  have "mset (map obj_public_id (iterate_by_type st tid))
        = mset (map obj_public_id (filter (\<lambda>ob. obj_type_id ob = tid) (objects st)))"
    by (simp add: iterate_by_type_def)
  moreover have "distinct (map obj_public_id (filter (\<lambda>ob. obj_type_id ob = tid) (objects st)))"
    using assms by (rule distinct_map_filter)
  ultimately show ?thesis
    by (metis mset_eq_imp_distinct_iff)
qed

lemma set_iterate_by_type:
  "set (iterate_by_type st tid) = {ob \<in> set (objects st). obj_type_id ob = tid}"
  by (simp add: iterate_by_type_def)

lemma pass_by_type:
  assumes hid: "\<And>x ob. obj_public_id (h x ob) = obj_public_id ob"
    and d: "distinct (map obj_public_id (objects st))"
  shows "fold (\<lambda>x s. s\<lparr>objects := map (\<lambda>ob. if obj_public_id ob = obj_public_id x then h x ob else ob)
                                   (objects s)\<rparr>) (iterate_by_type st tid) st
         = st\<lparr>objects := map (\<lambda>ob. if obj_type_id ob = tid then h ob ob else ob) (objects st)\<rparr>"
proof -
  have "map (\<lambda>ob. case List.find (\<lambda>x. obj_public_id x = obj_public_id ob) (iterate_by_type st tid) of
                     None \<Rightarrow> ob | Some x \<Rightarrow> h x ob) (objects st)
        = map (\<lambda>ob. if obj_type_id ob = tid then h ob ob else ob) (objects st)"
  proof (rule map_cong [OF refl])
    fix ob assume ob: "ob \<in> set (objects st)"
    have sub: "set (iterate_by_type st tid) \<subseteq> set (objects st)"
      by (auto simp: set_iterate_by_type)
    show "(case List.find (\<lambda>x. obj_public_id x = obj_public_id ob) (iterate_by_type st tid) of
             None \<Rightarrow> ob | Some x \<Rightarrow> h x ob)
          = (if obj_type_id ob = tid then h ob ob else ob)"
      using ob by (simp add: find_own [OF d ob sub] set_iterate_by_type)
  qed
  then show ?thesis
    by (simp only: fold_by_distinct_ids [of h, OF hid distinct_iterate_by_type [OF d]])
qed

lemma fold_pull_object:
  "fold (\<lambda>field ob. ob\<lparr>obj_fields := filter (\<lambda>f. fst f \<noteq> field) (obj_fields ob)\<rparr>) rs ob
   = ob\<lparr>obj_fields := filter (\<lambda>f. fst f \<notin> set rs) (obj_fields ob)\<rparr>"
proof (induction rs arbitrary: ob)
  case Nil
  show ?case by simp
next
  case (Cons r rs)
  show ?case
    by (simp add: Cons.IH conj_commute)
qed

lemma fold_pull_field:
  "fold (\<lambda>field s'. pull_field s' i field) rs s
   = s\<lparr>objects := map (\<lambda>ob. if obj_public_id ob = i
                              then ob\<lparr>obj_fields := filter (\<lambda>f. fst f \<notin> set rs) (obj_fields ob)\<rparr>
                              else ob) (objects s)\<rparr>"
proof -
  have "fold (\<lambda>field s'. pull_field s' i field) rs s
        = fold (\<lambda>a s. s\<lparr>objects :=
                  map (\<lambda>ob. if obj_public_id ob = i
                             then (\<lambda>field ob. ob\<lparr>obj_fields := filter (\<lambda>f. fst f \<noteq> field) (obj_fields ob)\<rparr>) a ob
                             else ob) (objects s)\<rparr>) rs s"
    by (simp add: pull_field_def)
  also have "\<dots> = s\<lparr>objects :=
                  map (\<lambda>ob. if obj_public_id ob = i
                             then fold (\<lambda>field ob. ob\<lparr>obj_fields := filter (\<lambda>f. fst f \<noteq> field) (obj_fields ob)\<rparr>) rs ob
                             else ob) (objects s)\<rparr>"
    by (rule fold_by_id) simp
  finally show ?thesis
    by (simp only: fold_pull_object)
qed

lemma remove_pass_by_type:
  assumes "distinct (map obj_public_id (objects st))"
  shows "remove_pass st tfs (iterate_by_type st tid)
         = st\<lparr>objects :=
              map (\<lambda>ob. if obj_type_id ob = tid
                         then ob\<lparr>obj_fields :=
                                 filter (\<lambda>f. fst f \<notin> set (removed_type_fields tfs (obj_fields ob)))
                                   (obj_fields ob)\<rparr>
                         else ob) (objects st)\<rparr>"
proof -
  let ?h = "\<lambda>x ob. ob\<lparr>obj_fields :=
                        filter (\<lambda>f. fst f \<notin> set (removed_type_fields tfs (obj_fields x)))
                          (obj_fields ob)\<rparr>"
  have "remove_pass st tfs (iterate_by_type st tid)
        = fold (\<lambda>x s. s\<lparr>objects := map (\<lambda>ob. if obj_public_id ob = obj_public_id x then ?h x ob else ob)
                                   (objects s)\<rparr>) (iterate_by_type st tid) st"
    by (simp only: remove_pass_def fold_pull_field)
  also have "\<dots> = st\<lparr>objects := map (\<lambda>ob. if obj_type_id ob = tid then ?h ob ob else ob) (objects st)\<rparr>"
    by (rule pass_by_type [OF _ assms]) simp
  finally show ?thesis .
qed

lemma add_step_by_id:
  "(if has then s else add_to_set s i fld)
   = s\<lparr>objects :=
        map (\<lambda>ob. if obj_public_id ob = i
                   then (if has \<or> fld \<in> set (obj_fields ob) then ob
                         else ob\<lparr>obj_fields := obj_fields ob @ [fld]\<rparr>)
                   else ob) (objects s)\<rparr>"
proof (cases has)
  case True
  then show ?thesis by (cases s) (simp add: map_idI)
next
  case False
  have "map (\<lambda>ob. if obj_public_id ob = i \<and> fld \<notin> set (obj_fields ob)
                   then ob\<lparr>obj_fields := obj_fields ob @ [fld]\<rparr> else ob) (objects s)
        = map (\<lambda>ob. if obj_public_id ob = i
                   then (if False \<or> fld \<in> set (obj_fields ob) then ob
                         else ob\<lparr>obj_fields := obj_fields ob @ [fld]\<rparr>)
                   else ob) (objects s)"
    by (rule map_cong [OF refl]) simp
  with False show ?thesis
    by (simp add: add_to_set_def)
qed

lemma fold_add_frame:
  "obj_type_id (fold (\<lambda>tf ob. if has tf \<or> fld tf \<in> set (obj_fields ob) then ob
                       else ob\<lparr>obj_fields := obj_fields ob @ [fld tf]\<rparr>) tfs ob) = obj_type_id ob
   \<and> obj_public_id (fold (\<lambda>tf ob. if has tf \<or> fld tf \<in> set (obj_fields ob) then ob
                       else ob\<lparr>obj_fields := obj_fields ob @ [fld tf]\<rparr>) tfs ob) = obj_public_id ob"
  by (induction tfs arbitrary: ob) simp_all

lemma fold_add_names:
  "fst ` set (obj_fields
       (fold (\<lambda>tf ob. if has tf \<or> fld tf \<in> set (obj_fields ob) then ob
                       else ob\<lparr>obj_fields := obj_fields ob @ [fld tf]\<rparr>) tfs ob))
   = fst ` set (obj_fields ob) \<union> (\<lambda>tf. fst (fld tf)) ` {tf \<in> set tfs. \<not> has tf}"
proof (induction tfs arbitrary: ob)
  case Nil
  show ?case by simp
next
  case (Cons tf tfs)
  let ?k = "\<lambda>tf ob. if has tf \<or> fld tf \<in> set (obj_fields ob) then ob
                      else ob\<lparr>obj_fields := obj_fields ob @ [fld tf]\<rparr>"
  have step: "fst ` set (obj_fields (?k tf ob))
              = fst ` set (obj_fields ob) \<union> (if has tf then {} else {fst (fld tf)})"
    by (auto simp: image_iff)
  have "fst ` set (obj_fields (fold ?k (tf # tfs) ob))
        = fst ` set (obj_fields (fold ?k tfs (?k tf ob)))"
    by simp
  also have "\<dots> = fst ` set (obj_fields (?k tf ob))
                    \<union> (\<lambda>tf. fst (fld tf)) ` {tf \<in> set tfs. \<not> has tf}"
    by (rule Cons.IH)
  also have "\<dots> = fst ` set (obj_fields ob)
                    \<union> (\<lambda>tf. fst (fld tf)) ` {x \<in> set (tf # tfs). \<not> has x}"
    unfolding step by auto
  finally show ?case .
qed

lemma add_pass_by_type:
  assumes "distinct (map obj_public_id (objects st))"
  shows "add_pass st tfs (iterate_by_type st tid)
         = st\<lparr>objects :=
              map (\<lambda>ob. if obj_type_id ob = tid
                         then fold (\<lambda>tf ob'.
                                if list_ex (\<lambda>item. fst item = tf_name tf) (obj_fields ob)
                                   \<or> (tf_name tf, (case tf_value tf of None \<Rightarrow> VNone | Some v \<Rightarrow> v))
                                       \<in> set (obj_fields ob')
                                then ob'
                                else ob'\<lparr>obj_fields := obj_fields ob'
                                        @ [(tf_name tf, (case tf_value tf of None \<Rightarrow> VNone | Some v \<Rightarrow> v))]\<rparr>)
                              tfs ob
                         else ob) (objects st)\<rparr>"
proof -
  let ?k = "\<lambda>x tf ob'.
              if list_ex (\<lambda>item. fst item = tf_name tf) (obj_fields x)
                 \<or> (tf_name tf, (case tf_value tf of None \<Rightarrow> VNone | Some v \<Rightarrow> v)) \<in> set (obj_fields ob')
              then ob'
              else ob'\<lparr>obj_fields := obj_fields ob'
                      @ [(tf_name tf, (case tf_value tf of None \<Rightarrow> VNone | Some v \<Rightarrow> v))]\<rparr>"
  have inner: "\<And>x s.
      fold (\<lambda>t_field s'.
              if list_ex (\<lambda>item. fst item = tf_name t_field) (obj_fields x) then s'
              else add_to_set s' (obj_public_id x)
                     (tf_name t_field, (case tf_value t_field of None \<Rightarrow> VNone | Some v \<Rightarrow> v)))
        tfs s
      = s\<lparr>objects := map (\<lambda>ob. if obj_public_id ob = obj_public_id x then fold (?k x) tfs ob else ob)
                          (objects s)\<rparr>"
  proof -
    fix x s
    show "fold (\<lambda>t_field s'.
              if list_ex (\<lambda>item. fst item = tf_name t_field) (obj_fields x) then s'
              else add_to_set s' (obj_public_id x)
                     (tf_name t_field, (case tf_value t_field of None \<Rightarrow> VNone | Some v \<Rightarrow> v)))
        tfs s
      = s\<lparr>objects := map (\<lambda>ob. if obj_public_id ob = obj_public_id x then fold (?k x) tfs ob else ob)
                          (objects s)\<rparr>"
      unfolding add_step_by_id
      by (rule fold_by_id) simp
  qed
  have hid: "\<And>x ob. obj_public_id (fold (?k x) tfs ob) = obj_public_id ob"
    by (simp add: fold_add_frame)
  have "add_pass st tfs (iterate_by_type st tid)
        = fold (\<lambda>x s. s\<lparr>objects := map (\<lambda>ob. if obj_public_id ob = obj_public_id x
                                               then fold (?k x) tfs ob else ob) (objects s)\<rparr>)
            (iterate_by_type st tid) st"
    by (simp only: add_pass_def inner)
  also have "\<dots> = st\<lparr>objects := map (\<lambda>ob. if obj_type_id ob = tid then fold (?k ob) tfs ob else ob)
                                    (objects st)\<rparr>"
    by (rule pass_by_type [of "\<lambda>x ob. fold (?k x) tfs ob", OF hid assms])
  finally show ?thesis .
qed

text \<open>
  For a type with at least one field, and objects with distinct ids, the repair does what
  it is meant to do: afterwards the field names of every object of the type are the field
  names of the type.
\<close>

lemma repair_of_type_with_fields:
  assumes t: "get_type st tid = Some t"
    and ne: "type_fields t \<noteq> []"
    and d: "distinct (map obj_public_id (objects st))"
  shows "\<exists>st'. update_unstructured_objects st tid = Inr st'
           \<and> (\<forall>ob. ob \<in> set (objects st') \<and> obj_type_id ob = tid
                 \<longrightarrow> fst ` set (obj_fields ob) = tf_name ` set (type_fields t))"
proof -
  let ?tfs = "type_fields t"
  let ?g1 = "\<lambda>ob. if obj_type_id ob = tid
                   then ob\<lparr>obj_fields :=
                           filter (\<lambda>f. fst f \<notin> set (removed_type_fields ?tfs (obj_fields ob)))
                             (obj_fields ob)\<rparr>
                   else ob"
  let ?fld = "\<lambda>tf. (tf_name tf, (case tf_value tf of None \<Rightarrow> VNone | Some v \<Rightarrow> v))"
  let ?k = "\<lambda>x tf ob'.
              if list_ex (\<lambda>item. fst item = tf_name tf) (obj_fields x) \<or> ?fld tf \<in> set (obj_fields ob')
              then ob'
              else ob'\<lparr>obj_fields := obj_fields ob' @ [?fld tf]\<rparr>"
  let ?g2 = "\<lambda>ob. if obj_type_id ob = tid then fold (?k ob) ?tfs ob else ob"
  let ?st1 = "st\<lparr>objects := map ?g1 (objects st)\<rparr>"
  let ?st2 = "?st1\<lparr>objects := map ?g2 (objects ?st1)\<rparr>"
  have s1: "remove_pass st ?tfs (iterate_by_type st tid) = ?st1"
    by (rule remove_pass_by_type [OF d])
  have m1: "map obj_public_id (objects ?st1) = map obj_public_id (objects st)"
    by (simp add: comp_def cong: if_cong)
  have d1: "distinct (map obj_public_id (objects ?st1))"
    using d by (simp only: m1)
  have s2: "add_pass ?st1 ?tfs (iterate_by_type ?st1 tid) = ?st2"
    by (rule add_pass_by_type [OF d1])
  have run: "update_unstructured_objects st tid = Inr ?st2"
    using t by (simp only: update_unstructured_objects_def option.case Let_def s1 s2)
  have names: "fst ` set (obj_fields ob2) = tf_name ` set ?tfs"
    if ob2: "ob2 \<in> set (objects ?st2)" and ty: "obj_type_id ob2 = tid" for ob2
  proof -
    from ob2 obtain ob where ob: "ob \<in> set (objects st)" and eq: "ob2 = ?g2 (?g1 ob)"
      by auto
    have ty1: "obj_type_id (?g1 ob) = obj_type_id ob"
      by simp
    have ty2: "obj_type_id (?g2 (?g1 ob)) = obj_type_id (?g1 ob)"
      using fold_add_frame [of "\<lambda>tf. list_ex (\<lambda>item. fst item = tf_name tf) (obj_fields (?g1 ob))"
                               ?fld ?tfs "?g1 ob"]
      by (simp only: split: if_splits) auto
    from ty eq ty1 ty2 have tyo: "obj_type_id ob = tid"
      by simp
    let ?ob1 = "ob\<lparr>obj_fields :=
                   filter (\<lambda>f. fst f \<notin> set (removed_type_fields ?tfs (obj_fields ob))) (obj_fields ob)\<rparr>"
    have g1: "?g1 ob = ?ob1"
      using tyo by simp
    have "filter (\<lambda>f. fst f \<notin> set (removed_type_fields ?tfs (obj_fields ob))) (obj_fields ob)
          = filter (\<lambda>f. fst f \<in> tf_name ` set ?tfs) (obj_fields ob)"
      by (rule filter_cong [OF refl]) (simp add: removed_type_fields_set [OF ne])
    then have "fst ` set (obj_fields ?ob1)
               = fst ` set (filter (\<lambda>f. fst f \<in> tf_name ` set ?tfs) (obj_fields ob))"
      by simp
    also have "\<dots> = fst ` set (obj_fields ob) \<inter> tf_name ` set ?tfs"
      by force
    finally have n1: "fst ` set (obj_fields ?ob1) = fst ` set (obj_fields ob) \<inter> tf_name ` set ?tfs" .
    have has_name: "\<And>n fs. list_ex (\<lambda>item. fst item = n) fs = (n \<in> fst ` set fs)"
      for fs :: "field list"
      by (force simp: list_ex_iff)
    have has: "\<And>tf. list_ex (\<lambda>item. fst item = tf_name tf) (obj_fields ?ob1)
                     = (tf_name tf \<in> fst ` set (obj_fields ?ob1))"
      by (rule has_name)
    have "ob2 = fold (?k ?ob1) ?tfs ?ob1"
      using eq g1 tyo by simp
    then have "fst ` set (obj_fields ob2)
          = fst ` set (obj_fields ?ob1)
            \<union> (\<lambda>tf. fst (?fld tf)) `
                {tf \<in> set ?tfs. \<not> list_ex (\<lambda>item. fst item = tf_name tf) (obj_fields ?ob1)}"
      by (simp only: fold_add_names)
    also have "\<dots> = tf_name ` set ?tfs"
      unfolding has n1 by auto
    finally show ?thesis .
  qed
  from run names show ?thesis
    by blast
qed

text \<open>
  C7 fails on a type without fields: the lists \<open>correct\<close> and \<open>incorrect\<close> are filled
  inside the loop over the type's fields, so for such a type nothing is marked for removal.
  The repair of type 3 leaves the store as it was, and object 9 still has the field
  \<open>serial\<close>, which the type does not have, and is still reported as unstructured.
\<close>

theorem repair_keeps_fields_of_fieldless_type:
  "update_unstructured_objects bare_store 3 = Inr bare_store
   \<and> get_type bare_store 3 = Some bare_type
   \<and> type_fields bare_type = []
   \<and> get_object bare_store 9 = Some legacy9
   \<and> obj_type_id legacy9 = 3
   \<and> map fst (obj_fields legacy9) = [''serial'']
   \<and> get_unstructured_objects bare_store 3 = Inr [legacy9]"
  by code_simp

end
